theory Spec2Isabelle
  imports Main "HOL-Library.AList" "HOL-Library.Char_ord" "HOL-Library.List_Lexorder"
begin

section \<open>Python strings and the text layer\<close>

text \<open>
  A Python \<open>str\<close> is modelled as a \<open>string\<close> whose characters are the code points
  below 256. Comparison of two strings is Python's: lexicographic by code point, a proper
  prefix being smaller (the order of \<open>List_Lexorder\<close> over \<open>Char_ord\<close>).
\<close>

definition TAB :: char where
  "TAB = CHR 0x09"

definition LF :: char where
  "LF = CHR 0x0A"

text \<open>The code points below 256 for which \<open>str.isspace\<close> holds.\<close>

definition whitespace :: "char list" where
  "whitespace = [CHR 0x09, CHR 0x0A, CHR 0x0B, CHR 0x0C, CHR 0x0D, CHR 0x1C, CHR 0x1D,
                 CHR 0x1E, CHR 0x1F, CHR 0x20, CHR 0x85, CHR 0xA0]"

definition isspace :: "char \<Rightarrow> bool" where
  "isspace c = (c \<in> set whitespace)"

text \<open>\<open>s.strip()\<close>: whitespace is removed at both ends.\<close>

definition lstrip :: "string \<Rightarrow> string" where
  "lstrip s = dropWhile isspace s"

definition rstrip :: "string \<Rightarrow> string" where
  "rstrip s = rev (dropWhile isspace (rev s))"

definition strip :: "string \<Rightarrow> string" where
  "strip s = rstrip (lstrip s)"

text \<open>\<open>s.split(sep)\<close> for a one-character separator: one field more than separators.\<close>

fun split :: "char \<Rightarrow> string \<Rightarrow> string list" where
  "split sep [] = [[]]"
| "split sep (c # cs) =
     (if c = sep then [] # split sep cs
      else (case split sep cs of
              [] \<Rightarrow> [[c]]
            | f # fs \<Rightarrow> (c # f) # fs))"

text \<open>
  \<open>file.readlines()\<close> on the text of a file: the text is cut after every line feed, each
  line keeps its line feed, and a last line without one is kept when it is not empty.
\<close>

fun readlines :: "string \<Rightarrow> string list" where
  "readlines [] = []"
| "readlines (c # cs) =
     (if c = LF then [LF] # readlines cs
      else (case readlines cs of
              [] \<Rightarrow> [[c]]
            | l # ls \<Rightarrow> (c # l) # ls))"

text \<open>\<open>os.path.join(a, b)\<close> of \<open>posixpath\<close>, for two components.\<close>

definition path_join :: "string \<Rightarrow> string \<Rightarrow> string" where
  "path_join a b =
     (if b \<noteq> [] \<and> hd b = CHR ''/'' then b
      else if a = [] \<or> last a = CHR ''/'' then a @ b
      else a @ ''/'' @ b)"

section \<open>The world: file store, directories, console\<close>

text \<open>
  The records appended to a sublibrary (the dictionaries with the keys \<open>forward_tag\<close>,
  \<open>reverse_tag\<close> and \<open>sample_name\<close>).
\<close>

record sample =
  forward_tag :: string
  reverse_tag :: string
  sample_name :: string

text \<open>One constructor for each \<open>print\<close> of the scripts, carrying the values it formats.\<close>

datatype event =
    Reading string
  | FileNotFound string
  | ReadLines nat
  | HeaderColumns "string list"
  | DataRows nat
  | OutputDirectory string
  | SkippingLine string
  | FoundSublibraries nat
  | ProcessingSublibrary string
  | Samples nat nat
  | Created string
  | ExampleEntries
  | ExampleEntry sample
  | ProcessComplete
  | CreatedFiles nat
  | Ready
  | CouldNotFind string

datatype py_error = IndexError | KeyError | FileNotFoundError | ReadCsvError string

text \<open>
  The file store gives, for a path, the text that Python's text layer reads from it.
  Reading a path that is absent raises \<open>FileNotFoundError\<close>; a file opened with mode
  \<open>w\<close> is created or truncated, and the store accepts every such write. The field
  \<open>written\<close> is the trace of these writes: the path of each file opened with mode
  \<open>w\<close> and the text it held when it was closed, in the order of the calls.
\<close>

record world =
  files :: "string \<Rightarrow> string option"
  dirs :: "string set"
  console :: "event list"
  written :: "(string \<times> string) list"

definition print :: "event \<Rightarrow> world \<Rightarrow> world" where
  "print e w = w\<lparr>console := console w @ [e]\<rparr>"

definition prints :: "event list \<Rightarrow> world \<Rightarrow> world" where
  "prints es w = w\<lparr>console := console w @ es\<rparr>"

text \<open>\<open>os.makedirs(d, exist_ok=True)\<close>.\<close>

definition makedirs :: "string \<Rightarrow> world \<Rightarrow> world" where
  "makedirs d w = w\<lparr>dirs := insert d (dirs w)\<rparr>"

text \<open>\<open>with open(p, 'w') as file: file.write(...) ...\<close>, the writes concatenated.\<close>

definition write_file :: "string \<Rightarrow> string \<Rightarrow> world \<Rightarrow> world" where
  "write_file p text w =
     w\<lparr>files := (files w)(p \<mapsto> text), written := written w @ [(p, text)]\<rparr>"

section \<open>create\_mapping\_files\<close>

text \<open>
  The dictionary \<open>sublibraries\<close>, in insertion order: \<open>AList.update\<close> replaces the value
  of a key that is present and appends a new key at the end, as a Python \<open>dict\<close> does.
\<close>

type_synonym sublibs = "(string \<times> sample list) list"

definition SAMPLE_ID :: nat where "SAMPLE_ID = 0"
definition SUBLIBRARY_ID :: nat where "SUBLIBRARY_ID = 1"
definition S16_FORWARD_TAG :: nat where "S16_FORWARD_TAG = 3"
definition S16_REVERSE_TAG :: nat where "S16_REVERSE_TAG = 5"
definition ITS1_FORWARD_TAG :: nat where "ITS1_FORWARD_TAG = 7"
definition ITS1_REVERSE_TAG :: nat where "ITS1_REVERSE_TAG = 9"

text \<open>\<open>sublibraries[k].append(r)\<close>; the key is present wherever the source does this.\<close>

definition dict_append :: "string \<Rightarrow> sample \<Rightarrow> sublibs \<Rightarrow> sublibs" where
  "dict_append k r d = AList.map_entry k (\<lambda>v. v @ [r]) d"

text \<open>
  The body of the loop over \<open>data_lines\<close> (lines 57 to 93). The indexed reads of
  \<open>columns\<close> come after the length check, so they are in range.
\<close>

definition group_row :: "string \<Rightarrow> sublibs \<times> world \<Rightarrow> sublibs \<times> world" where
  "group_row line st =
     (case st of (sublibraries, w) \<Rightarrow>
        let columns = split TAB line in
        if length columns < 10 then
          (sublibraries, print (SkippingLine (take 50 line)) w)
        else
          let sample_id = columns ! SAMPLE_ID;
              sublibrary_id = columns ! SUBLIBRARY_ID in
          if sample_id = [] \<or> sublibrary_id = [] then (sublibraries, w)
          else
            let subs1 = (if map_of sublibraries sublibrary_id = None
                         then AList.update sublibrary_id [] sublibraries
                         else sublibraries);
                s16_forward = columns ! S16_FORWARD_TAG;
                s16_reverse = columns ! S16_REVERSE_TAG;
                its1_forward = columns ! ITS1_FORWARD_TAG;
                its1_reverse = columns ! ITS1_REVERSE_TAG;
                subs2 = dict_append sublibrary_id
                          \<lparr>forward_tag = s16_forward, reverse_tag = s16_reverse,
                           sample_name = sample_id @ ''_16S''\<rparr> subs1;
                subs3 = dict_append sublibrary_id
                          \<lparr>forward_tag = its1_forward, reverse_tag = its1_reverse,
                           sample_name = sample_id @ ''_ITS1''\<rparr> subs2
            in (subs3, w))"

primrec group_rows :: "string list \<Rightarrow> sublibs \<times> world \<Rightarrow> sublibs \<times> world" where
  "group_rows [] st = st"
| "group_rows (line # rest) st = group_rows rest (group_row line st)"

text \<open>The line written for one record (line 112).\<close>

definition sample_line :: "sample \<Rightarrow> string" where
  "sample_line s = forward_tag s @ [TAB] @ reverse_tag s @ [TAB] @ sample_name s @ [LF]"

definition samples_of :: "sublibs \<Rightarrow> string \<Rightarrow> sample list" where
  "samples_of sublibraries k = (case map_of sublibraries k of None \<Rightarrow> [] | Some v \<Rightarrow> v)"

text \<open>
  The body of the loop over the sorted keys (lines 100 to 121); the keys come from the
  dictionary itself, so the lookup finds each of them.
\<close>

definition write_sublibrary :: "string \<Rightarrow> sublibs \<Rightarrow> string \<Rightarrow> world \<times> nat \<Rightarrow> world \<times> nat" where
  "write_sublibrary output_dir sublibraries sublibrary_id st =
     (case st of (w, files_created) \<Rightarrow>
        let samples = samples_of sublibraries sublibrary_id;
            w1 = print (Samples (length samples div 2) (length samples))
                   (print (ProcessingSublibrary sublibrary_id) w);
            output_file = path_join output_dir (sublibrary_id @ ''_tags.tsv'');
            w2 = write_file output_file (concat (map sample_line samples)) w1;
            w3 = print ExampleEntries (print (Created output_file) w2);
            w4 = prints (map ExampleEntry (take 4 samples)) w3
        in (w4, files_created + 1))"

primrec write_sublibraries :: "string \<Rightarrow> sublibs \<Rightarrow> string list \<Rightarrow> world \<times> nat \<Rightarrow> world \<times> nat" where
  "write_sublibraries output_dir sublibraries [] st = st"
| "write_sublibraries output_dir sublibraries (k # ks) st =
     write_sublibraries output_dir sublibraries ks
       (write_sublibrary output_dir sublibraries k st)"

text \<open>Lines 33 and 34: \<open>lines[0]\<close> raises \<open>IndexError\<close> on an empty list.\<close>

definition data_lines_of :: "string list \<Rightarrow> string list" where
  "data_lines_of rest = map strip (filter (\<lambda>line. strip line \<noteq> []) rest)"

definition create_mapping_files :: "string \<Rightarrow> string \<Rightarrow> world \<Rightarrow> py_error + world" where
  "create_mapping_files input_file output_dir w0 =
     (let w1 = print (Reading input_file) w0 in
      case files w1 input_file of
        None \<Rightarrow> Inr (print (FileNotFound input_file) w1)
      | Some text \<Rightarrow>
          (let lines = readlines text;
               w2 = print (ReadLines (length lines)) w1 in
           case lines of
             [] \<Rightarrow> Inl IndexError
           | line0 # rest \<Rightarrow>
               (let header = split TAB (strip line0);
                    data_lines = data_lines_of rest;
                    w3 = print (DataRows (length data_lines)) (print (HeaderColumns header) w2);
                    w4 = print (OutputDirectory output_dir) (makedirs output_dir w3);
                    (sublibraries, w5) = group_rows data_lines ([], w4);
                    w6 = print (FoundSublibraries (length sublibraries)) w5;
                    (w7, files_created) =
                       write_sublibraries output_dir sublibraries
                         (sort (map fst sublibraries)) (w6, 0)
                in Inr (print Ready (print (CreatedFiles files_created)
                          (print ProcessComplete w7))))))"

section \<open>extract\_sample\_stats\<close>

text \<open>
  A zip archive is the list of its members in the order of \<open>namelist()\<close>, each a name
  with its bytes. \<open>ZipFile.open(name)\<close> looks the name up in the archive's table of
  names, where a later member of the same name has replaced an earlier one.
\<close>

type_synonym zip_archive = "(string \<times> string) list"

definition namelist :: "zip_archive \<Rightarrow> string list" where
  "namelist zip_ref = map fst zip_ref"

definition zip_open :: "zip_archive \<Rightarrow> string \<Rightarrow> py_error + string" where
  "zip_open zip_ref name =
     (case map_of (rev zip_ref) name of None \<Rightarrow> Inl KeyError | Some bytes \<Rightarrow> Inr bytes)"

definition endswith :: "string \<Rightarrow> string \<Rightarrow> bool" where
  "endswith s suffix =
     (length suffix \<le> length s \<and> drop (length s - length suffix) s = suffix)"

text \<open>The loop of lines 18 to 22: the first name with the suffix, or \<open>None\<close>.\<close>

fun find_data_file :: "string list \<Rightarrow> string option" where
  "find_data_file [] = None"
| "find_data_file (file # rest) =
     (if endswith file ''sample-frequency-detail.csv'' then Some file
      else find_data_file rest)"

text \<open>
  \<open>pd.read_csv\<close> is a parameter: it gives the table read from the bytes or raises.
  \<open>zips\<close> gives the archive at a path; \<open>ZipFile\<close> raises where there is none. The
  test \<open>if data_file\<close> is false for \<open>None\<close> and for the empty string.
\<close>

definition extract_sample_stats ::
  "(string \<Rightarrow> py_error + 'df) \<Rightarrow> (string \<Rightarrow> zip_archive option) \<Rightarrow> string \<Rightarrow>
     event list \<Rightarrow> py_error + ('df option \<times> event list)" where
  "extract_sample_stats read_csv zips qzv_file out =
     (case zips qzv_file of
        None \<Rightarrow> Inl FileNotFoundError
      | Some zip_ref \<Rightarrow>
          (let file_list = namelist zip_ref;
               data_file = find_data_file file_list in
           case data_file of
             None \<Rightarrow> Inr (None, out @ [CouldNotFind qzv_file])
           | Some name \<Rightarrow>
               if name = [] then Inr (None, out @ [CouldNotFind qzv_file])
               else
                 (case zip_open zip_ref name of
                    Inl e \<Rightarrow> Inl e
                  | Inr bytes \<Rightarrow>
                      (case read_csv bytes of
                         Inl e \<Rightarrow> Inl e
                       | Inr df \<Rightarrow> Inr (Some df, out)))))"

section \<open>The transform as the specification words it\<close>

text \<open>
  The specification's reading of a data row, used to state what the loops compute: a row
  is valid when it has at least 10 tab-separated fields and neither \<open>sample_id\<close>
  (field 0) nor \<open>group_key\<close> (field 1) is empty.
\<close>

definition spec_valid_row :: "string \<Rightarrow> bool" where
  "spec_valid_row row =
     (10 \<le> length (split TAB row) \<and> split TAB row ! 0 \<noteq> [] \<and> split TAB row ! 1 \<noteq> [])"

definition spec_group_key :: "string \<Rightarrow> string" where
  "spec_group_key row = split TAB row ! 1"

text \<open>The two OutputRecords of a row: suffix A with fields 3 and 5, suffix B with 7 and 9.\<close>

definition spec_record_A :: "string \<Rightarrow> sample" where
  "spec_record_A row =
     \<lparr>forward_tag = split TAB row ! 3, reverse_tag = split TAB row ! 5,
      sample_name = split TAB row ! 0 @ ''_16S''\<rparr>"

definition spec_record_B :: "string \<Rightarrow> sample" where
  "spec_record_B row =
     \<lparr>forward_tag = split TAB row ! 7, reverse_tag = split TAB row ! 9,
      sample_name = split TAB row ! 0 @ ''_ITS1''\<rparr>"

definition spec_group_rows :: "string \<Rightarrow> string list \<Rightarrow> string list" where
  "spec_group_rows k rows = filter (\<lambda>row. spec_valid_row row \<and> spec_group_key row = k) rows"

definition spec_group_records :: "string \<Rightarrow> string list \<Rightarrow> sample list" where
  "spec_group_records k rows =
     concat (map (\<lambda>row. [spec_record_A row, spec_record_B row]) (spec_group_rows k rows))"

definition spec_group_keys :: "string list \<Rightarrow> string list" where
  "spec_group_keys rows = map spec_group_key (filter spec_valid_row rows)"

text \<open>The name of a group's file in the output directory, and the files of a table.\<close>

definition tags_file :: "string \<Rightarrow> string \<Rightarrow> string" where
  "tags_file output_dir k = path_join output_dir (k @ ''_tags.tsv'')"

definition spec_files :: "string \<Rightarrow> string list \<Rightarrow> (string \<times> string) list" where
  "spec_files output_dir rows =
     map (\<lambda>k. (tags_file output_dir k, concat (map sample_line (spec_group_records k rows))))
       (sort (remdups (spec_group_keys rows)))"

text \<open>The file store after a sequence of writes: a later write to a path replaces an earlier one.\<close>

primrec store ::
  "(string \<times> string) list \<Rightarrow> (string \<Rightarrow> string option) \<Rightarrow> (string \<Rightarrow> string option)" where
  "store [] m = m"
| "store (pc # ws) m = store ws (m(fst pc \<mapsto> snd pc))"

text \<open>\<open>'\t'.join(fields)\<close>, to write the rows of example tables.\<close>

fun tab_join :: "string list \<Rightarrow> string" where
  "tab_join [] = []"
| "tab_join [f] = f"
| "tab_join (f # fs) = f @ TAB # tab_join fs"

text \<open>The line of a record without its line feed.\<close>

definition line_body :: "sample \<Rightarrow> string" where
  "line_body s = forward_tag s @ [TAB] @ reverse_tag s @ [TAB] @ sample_name s"

section \<open>Example inputs\<close>

definition qzv_example :: zip_archive where
  "qzv_example = [(''a/index.html'', ''x''), (''a/data/sample-frequency-detail.csv'', ''id,frequency'')]"

text \<open>The row of the specification's example, and a world with nothing in it.\<close>

definition row_S1 :: string where
  "row_S1 = tab_join [''S1'', ''LIB01'', ''p1'', ''AAAA'', ''p2'', ''TTTT'', ''p3'', ''GGGG'',
                      ''p4'', ''CCCC'']"

definition empty_world :: world where
  "empty_world = \<lparr>files = Map.empty, dirs = {}, console = [], written = []\<rparr>"

definition world_with :: "string \<Rightarrow> string \<Rightarrow> world" where
  "world_with p text = empty_world\<lparr>files := [p \<mapsto> text]\<rparr>"

text \<open>A table with a header, the example row and a row of two fields.\<close>

definition row_short :: string where
  "row_short = tab_join [''x'', ''y'']"

definition example_table :: string where
  "example_table = ''h'' @ [LF] @ row_S1 @ [LF] @ row_short @ [LF]"

text \<open>A row of 11 fields that begins with a tab: its first field is empty.\<close>

definition row_leading_tab :: string where
  "row_leading_tab = tab_join ['''', ''LIB01'', ''p1'', ''AAAA'', ''p2'', ''TTTT'', ''p3'',
                               ''GGGG'', ''p4'', ''CCCC'', ''X'']"

definition row_shifted :: string where
  "row_shifted = tab_join [''LIB01'', ''p1'', ''AAAA'', ''p2'', ''TTTT'', ''p3'',
                           ''GGGG'', ''p4'', ''CCCC'', ''X'']"

section \<open>Splitting, stripping and reading lines\<close>

lemma split_nonempty: "split sep s \<noteq> []"
  by (induction s) (auto split: list.splits)

lemma length_split: "length (split sep s) = Suc (count_list s sep)"
  by (induction s) (auto split: list.splits)

lemma split_field_no_sep: "f \<in> set (split sep s) \<Longrightarrow> sep \<notin> set f"
proof (induction s arbitrary: f)
  case Nil
  then show ?case by simp
next
  case (Cons c cs)
  have ne: "split sep cs \<noteq> []" by (rule split_nonempty)
  then obtain h t where ht: "split sep cs = h # t" by (cases "split sep cs") auto
  show ?case
    using Cons ht by (auto split: if_splits)
qed

lemma split_field_subset: "f \<in> set (split sep s) \<Longrightarrow> set f \<subseteq> set s"
proof (induction s arbitrary: f)
  case Nil
  then show ?case by simp
next
  case (Cons c cs)
  obtain h t where ht: "split sep cs = h # t"
    using split_nonempty[of sep cs] by (cases "split sep cs") auto
  show ?case
    using Cons ht by (fastforce split: if_splits)
qed

lemma readlines_line: "l \<in> set (readlines t) \<Longrightarrow> l \<noteq> [] \<and> LF \<notin> set (butlast l)"
proof (induction t arbitrary: l)
  case Nil
  then show ?case by simp
next
  case (Cons c cs)
  show ?case
  proof (cases "c = LF")
    case True
    with Cons show ?thesis by auto
  next
    case False
    show ?thesis
    proof (cases "readlines cs")
      case Nil
      with False Cons.prems show ?thesis by auto
    next
      case (Cons l' ls)
      with False Cons.prems Cons.IH show ?thesis by (auto simp: butlast.simps split: if_splits)
    qed
  qed
qed

lemma set_strip: "set (strip s) \<subseteq> set s"
  unfolding strip_def rstrip_def lstrip_def
  by (metis set_dropWhileD set_rev subsetI)

lemma isspace_LF: "isspace LF"
  by (simp add: isspace_def whitespace_def LF_def)

lemma isspace_TAB: "isspace TAB"
  by (simp add: isspace_def whitespace_def TAB_def)

lemma rstrip_snoc_space: "isspace c \<Longrightarrow> rstrip (s @ [c]) = rstrip s"
  by (simp add: rstrip_def)

lemma strip_snoc_space: "strip (s @ [c]) = strip s" if "isspace c"
  unfolding strip_def lstrip_def
proof (cases "\<forall>x\<in>set s. isspace x")
  case True
  then have a: "dropWhile isspace s = []" by (simp add: dropWhile_eq_Nil_conv)
  have b: "dropWhile isspace (s @ [c]) = []"
    using True that by (simp add: dropWhile_eq_Nil_conv)
  show "rstrip (dropWhile isspace (s @ [c])) = rstrip (dropWhile isspace s)"
    by (simp only: a b)
next
  case False
  then have "dropWhile isspace (s @ [c]) = dropWhile isspace s @ [c]"
    by (auto simp: dropWhile_append)
  then show "rstrip (dropWhile isspace (s @ [c])) = rstrip (dropWhile isspace s)"
    using that by (simp add: rstrip_snoc_space)
qed

lemma strip_line_no_LF:
  assumes "l \<in> set (readlines t)" shows "LF \<notin> set (strip l)"
proof -
  from readlines_line[OF assms] have ne: "l \<noteq> []" and nl: "LF \<notin> set (butlast l)" by auto
  show ?thesis
  proof (cases "last l = LF")
    case True
    then have "l = butlast l @ [LF]" using ne by (metis append_butlast_last_id)
    then have "strip l = strip (butlast l)" using strip_snoc_space[OF isspace_LF] by metis
    then show ?thesis using nl set_strip by fastforce
  next
    case False
    moreover have "l = butlast l @ [last l]"
      using ne by simp
    then have "set l = set (butlast l) \<union> set [last l]"
      by (metis set_append)
    ultimately have "LF \<notin> set l" using nl by auto
    then show ?thesis using set_strip by fastforce
  qed
qed

lemma count_dropWhile_le: "count_list (dropWhile P s) x \<le> count_list s x"
  by (induction s) auto

lemma count_list_rev: "count_list (rev s) x = count_list s x"
  by (induction s) auto

lemma count_strip_le: "count_list (strip s) x \<le> count_list s x"
  unfolding strip_def rstrip_def lstrip_def
  by (metis count_dropWhile_le count_list_rev le_trans)

lemma readlines_line_append:
  "LF \<notin> set l \<Longrightarrow> readlines (l @ LF # rest) = (l @ [LF]) # readlines rest"
  by (induction l) auto

lemma readlines_render:
  "\<forall>l\<in>set ls. LF \<notin> set l \<Longrightarrow> readlines (concat (map (\<lambda>l. l @ [LF]) ls)) = map (\<lambda>l. l @ [LF]) ls"
  by (induction ls) (auto simp: readlines_line_append)


subsection \<open>The dictionary\<close>

lemma keys_map_entry: "map fst (AList.map_entry k f xs) = map fst xs"
  by (induction xs) auto

lemma keys_dict_append: "map fst (dict_append k r d) = map fst d"
  by (simp add: dict_append_def keys_map_entry)

lemma samples_of_dict_append:
  "samples_of (dict_append k r d) k' =
     (if k' = k \<and> map_of d k \<noteq> None then samples_of d k @ [r] else samples_of d k')"
  by (auto simp: samples_of_def dict_append_def map_of_map_entry split: option.splits)

lemma map_of_dict_append_None:
  "map_of (dict_append k r d) k' = None \<longleftrightarrow> map_of d k' = None"
  by (auto simp: dict_append_def map_of_map_entry split: option.splits)

lemma samples_of_update:
  "samples_of (AList.update k v d) k' = (if k' = k then v else samples_of d k')"
  by (simp add: samples_of_def update_conv')

lemma samples_of_absent: "map_of d k = None \<Longrightarrow> samples_of d k = []"
  by (simp add: samples_of_def)

lemma group_row_invalid:
  "\<not> spec_valid_row line \<Longrightarrow> fst (group_row line (d, w)) = d"
  by (auto simp: group_row_def spec_valid_row_def Let_def SAMPLE_ID_def SUBLIBRARY_ID_def)

lemma group_row_valid:
  "spec_valid_row line \<Longrightarrow>
     fst (group_row line (d, w)) =
       dict_append (spec_group_key line) (spec_record_B line)
         (dict_append (spec_group_key line) (spec_record_A line)
           (if map_of d (spec_group_key line) = None
            then AList.update (spec_group_key line) [] d else d))"
  by (simp add: group_row_def spec_valid_row_def spec_group_key_def spec_record_A_def
      spec_record_B_def Let_def SAMPLE_ID_def SUBLIBRARY_ID_def S16_FORWARD_TAG_def
      S16_REVERSE_TAG_def ITS1_FORWARD_TAG_def ITS1_REVERSE_TAG_def)

lemma group_row_keys:
  "map fst (fst (group_row line (d, w))) =
     (if spec_valid_row line \<and> spec_group_key line \<notin> set (map fst d)
      then map fst d @ [spec_group_key line] else map fst d)"
proof (cases "spec_valid_row line")
  case False
  then show ?thesis by (simp add: group_row_invalid)
next
  case True
  show ?thesis
    using True
    by (auto simp: group_row_valid[OF True] keys_dict_append update_keys map_of_eq_None_iff)
qed

lemma group_row_samples:
  "samples_of (fst (group_row line (d, w))) k =
     (if spec_valid_row line \<and> spec_group_key line = k
      then samples_of d k @ [spec_record_A line, spec_record_B line] else samples_of d k)"
proof (cases "spec_valid_row line")
  case False
  then show ?thesis by (simp add: group_row_invalid)
next
  case True
  show ?thesis
    using True
    by (auto simp: group_row_valid[OF True] samples_of_dict_append samples_of_update
        map_of_dict_append_None update_conv' samples_of_absent)
qed

lemma group_row_world:
  "snd (group_row line (d, w)) =
     (if length (split TAB line) < 10 then print (SkippingLine (take 50 line)) w else w)"
  by (simp add: group_row_def Let_def)

lemma group_rows_keys_set:
  "set (map fst (fst (group_rows ls (d, w)))) = set (map fst d) \<union> set (spec_group_keys ls)"
proof (induction ls arbitrary: d w)
  case Nil
  then show ?case by (simp add: spec_group_keys_def)
next
  case (Cons l ls)
  obtain d' w' where st: "group_row l (d, w) = (d', w')" by (cases "group_row l (d, w)")
  have k: "map fst d' = (if spec_valid_row l \<and> spec_group_key l \<notin> set (map fst d)
      then map fst d @ [spec_group_key l] else map fst d)"
    using group_row_keys[of l d w] st by simp
  show ?case
    using Cons.IH[of d' w'] st k by (auto simp: spec_group_keys_def)
qed

lemma group_rows_keys_distinct:
  "distinct (map fst d) \<Longrightarrow> distinct (map fst (fst (group_rows ls (d, w))))"
proof (induction ls arbitrary: d w)
  case Nil
  then show ?case by simp
next
  case (Cons l ls)
  obtain d' w' where st: "group_row l (d, w) = (d', w')" by (cases "group_row l (d, w)")
  have k: "map fst d' = (if spec_valid_row l \<and> spec_group_key l \<notin> set (map fst d)
      then map fst d @ [spec_group_key l] else map fst d)"
    using group_row_keys[of l d w] st by simp
  then have "distinct (map fst d')" using Cons.prems by auto
  then show ?case using Cons.IH[of d' w'] st by simp
qed

lemma group_rows_samples:
  "samples_of (fst (group_rows ls (d, w))) k = samples_of d k @ spec_group_records k ls"
proof (induction ls arbitrary: d w)
  case Nil
  then show ?case by (simp add: spec_group_records_def spec_group_rows_def)
next
  case (Cons l ls)
  obtain d' w' where st: "group_row l (d, w) = (d', w')" by (cases "group_row l (d, w)")
  have s: "samples_of d' k =
     (if spec_valid_row l \<and> spec_group_key l = k
      then samples_of d k @ [spec_record_A l, spec_record_B l] else samples_of d k)"
    using group_row_samples[of l d w k] st by simp
  show ?case
    using Cons.IH[of d' w'] st s by (simp add: spec_group_records_def spec_group_rows_def)
qed

lemma group_rows_world:
  "files (snd (group_rows ls (d, w))) = files w \<and> dirs (snd (group_rows ls (d, w))) = dirs w
     \<and> written (snd (group_rows ls (d, w))) = written w"
proof (induction ls arbitrary: d w)
  case Nil
  then show ?case by simp
next
  case (Cons l ls)
  obtain d' w' where st: "group_row l (d, w) = (d', w')" by (cases "group_row l (d, w)")
  have "files w' = files w \<and> dirs w' = dirs w \<and> written w' = written w"
    using group_row_world[of l d w] st by (auto simp: print_def)
  then show ?case using Cons.IH[of d' w'] st by simp
qed

lemma sorted_keys:
  "sort (map fst (fst (group_rows ls ([], w)))) = sort (remdups (spec_group_keys ls))"
proof (rule sorted_distinct_set_unique)
  show "distinct (sort (map fst (fst (group_rows ls ([], w)))))"
    using group_rows_keys_distinct[of "[]" ls w] by simp
  show "set (sort (map fst (fst (group_rows ls ([], w))))) = set (sort (remdups (spec_group_keys ls)))"
    using group_rows_keys_set[of ls "[]" w] by simp
qed simp_all

subsection \<open>The loop that writes\<close>



lemma write_sublibrary_effect:
  "write_sublibrary out d k (w, n) = (w', n') \<Longrightarrow>
     files w' = (files w)(tags_file out k \<mapsto> concat (map sample_line (samples_of d k))) \<and>
     written w' = written w @ [(tags_file out k, concat (map sample_line (samples_of d k)))] \<and>
     dirs w' = dirs w \<and> n' = n + 1"
  by (auto simp: write_sublibrary_def Let_def print_def prints_def write_file_def tags_file_def)

lemma write_sublibraries_effect:
  "write_sublibraries out d ks (w, n) = (w', n') \<Longrightarrow>
     files w' = store (map (\<lambda>k. (tags_file out k, concat (map sample_line (samples_of d k)))) ks) (files w) \<and>
     written w' = written w @ map (\<lambda>k. (tags_file out k, concat (map sample_line (samples_of d k)))) ks \<and>
     dirs w' = dirs w \<and> n' = n + length ks"
proof (induction ks arbitrary: w n)
  case Nil
  then show ?case by simp
next
  case (Cons k ks)
  obtain w1 n1 where st: "write_sublibrary out d k (w, n) = (w1, n1)"
    by (cases "write_sublibrary out d k (w, n)")
  from write_sublibrary_effect[OF st] Cons.IH[of w1 n1] Cons.prems st
  show ?case by (simp del: fun_upd_apply)
qed


lemma group_rows_console:
  "\<exists>cs. console (snd (group_rows ls (d, w))) = console w @ cs"
proof (induction ls arbitrary: d w)
  case Nil
  then show ?case by simp
next
  case (Cons l ls)
  obtain d' w' where st: "group_row l (d, w) = (d', w')" by (cases "group_row l (d, w)")
  have "\<exists>cs. console w' = console w @ cs"
    using group_row_world[of l d w] st by (auto simp: print_def)
  then show ?case using Cons.IH[of d' w'] st by auto
qed

lemma write_sublibrary_console:
  "\<exists>cs. console (fst (write_sublibrary out d k (w, n))) = console w @ cs"
  by (simp add: write_sublibrary_def Let_def print_def prints_def write_file_def)

lemma write_sublibraries_console:
  "\<exists>cs. console (fst (write_sublibraries out d ks (w, n))) = console w @ cs"
proof (induction ks arbitrary: w n)
  case Nil
  then show ?case by simp
next
  case (Cons k ks)
  obtain w1 n1 where st: "write_sublibrary out d k (w, n) = (w1, n1)"
    by (cases "write_sublibrary out d k (w, n)")
  have "\<exists>cs. console w1 = console w @ cs"
    using write_sublibrary_console[of out d k w n] st by simp
  then show ?case using Cons.IH[of w1 n1] st by auto
qed

lemma samples_of_Nil: "samples_of [] k = []"
  by (simp add: samples_of_def)

lemma spec_files_samples:
  "map (\<lambda>k. (tags_file out k, concat (map sample_line (samples_of (fst (group_rows ls ([], w))) k))))
     (sort (map fst (fst (group_rows ls ([], w))))) = spec_files out ls"
  by (simp add: spec_files_def sorted_keys group_rows_samples samples_of_Nil)

lemma create_mapping_files_run:
  assumes rd: "files w0 inp = Some text" and ls: "readlines text = line0 # rest"
  shows "\<exists>w' cs. create_mapping_files inp out w0 = Inr w' \<and>
           written w' = written w0 @ spec_files out (data_lines_of rest) \<and>
           files w' = store (spec_files out (data_lines_of rest)) (files w0) \<and>
           dirs w' = insert out (dirs w0) \<and>
           console w' = console w0 @ cs @
             [ProcessComplete, CreatedFiles (length (spec_files out (data_lines_of rest))), Ready]"
proof -
  define w4 where "w4 = print (OutputDirectory out) (makedirs out
      (print (DataRows (length (data_lines_of rest)))
        (print (HeaderColumns (split TAB (strip line0)))
          (print (ReadLines (length (line0 # rest))) (print (Reading inp) w0)))))"
  obtain d w5 where g: "group_rows (data_lines_of rest) ([], w4) = (d, w5)"
    by (cases "group_rows (data_lines_of rest) ([], w4)")
  define w6 where "w6 = print (FoundSublibraries (length d)) w5"
  obtain w7 n where wr: "write_sublibraries out d (sort (map fst d)) (w6, 0) = (w7, n)"
    by (cases "write_sublibraries out d (sort (map fst d)) (w6, 0)")
  have run: "create_mapping_files inp out w0 =
      Inr (print Ready (print (CreatedFiles n) (print ProcessComplete w7)))"
    using rd ls g wr
    by (simp add: create_mapping_files_def Let_def print_def w4_def w6_def)
  have d: "d = fst (group_rows (data_lines_of rest) ([], w4))" using g by simp
  have plan: "map (\<lambda>k. (tags_file out k, concat (map sample_line (samples_of d k))))
      (sort (map fst d)) = spec_files out (data_lines_of rest)"
    unfolding d by (rule spec_files_samples)
  have w4f: "files w4 = files w0 \<and> dirs w4 = insert out (dirs w0) \<and> written w4 = written w0"
    by (simp add: w4_def print_def makedirs_def)
  have w5f: "files w5 = files w4 \<and> dirs w5 = dirs w4 \<and> written w5 = written w4"
    using group_rows_world[of "data_lines_of rest" "[]" w4] g by simp
  have w6f: "files w6 = files w5 \<and> dirs w6 = dirs w5 \<and> written w6 = written w5"
    by (simp add: w6_def print_def)
  from write_sublibraries_effect[OF wr]
  have w7f: "files w7 = store (spec_files out (data_lines_of rest)) (files w6)"
    "written w7 = written w6 @ spec_files out (data_lines_of rest)"
    "dirs w7 = dirs w6" "n = length (sort (map fst d))"
    by (simp_all add: plan)
  have n: "n = length (spec_files out (data_lines_of rest))"
    using w7f(4) arg_cong[OF plan, of length] by simp
  obtain c4 where c4: "console w4 = console w0 @ c4"
    by (simp add: w4_def print_def makedirs_def)
  obtain c5 where c5: "console w5 = console w4 @ c5"
    using group_rows_console[of "data_lines_of rest" "[]" w4] g by auto
  obtain c7 where c7: "console w7 = console w6 @ c7"
    using write_sublibraries_console[of out d "sort (map fst d)" w6 0] wr by auto
  have c: "console (print Ready (print (CreatedFiles n) (print ProcessComplete w7))) =
      console w0 @ (c4 @ c5 @ [FoundSublibraries (length d)] @ c7) @
        [ProcessComplete, CreatedFiles n, Ready]"
    by (simp add: print_def c7 w6_def c5 c4)
  show ?thesis
    apply (rule exI[of _ "print Ready (print (CreatedFiles n) (print ProcessComplete w7))"])
    apply (rule exI[of _ "c4 @ c5 @ [FoundSublibraries (length d)] @ c7"])
    using run c n w7f w6f w5f w4f by (simp add: print_def)
qed

subsection \<open>The archive\<close>

lemma find_data_file_None:
  "find_data_file names = None \<longleftrightarrow>
     (\<forall>name\<in>set names. \<not> endswith name ''sample-frequency-detail.csv'')"
  by (induction names) auto

lemma find_data_file_first:
  "\<forall>n\<in>set pre. \<not> endswith n ''sample-frequency-detail.csv'' \<Longrightarrow>
   endswith name ''sample-frequency-detail.csv'' \<Longrightarrow>
     find_data_file (pre @ name # post) = Some name"
  by (induction pre) auto

lemma find_data_file_Some:
  "find_data_file names = Some name \<Longrightarrow>
     name \<in> set names \<and> endswith name ''sample-frequency-detail.csv''"
  by (induction names) (auto split: if_splits)

lemma endswith_nonempty: "endswith name ''sample-frequency-detail.csv'' \<Longrightarrow> name \<noteq> []"
  by (auto simp: endswith_def)

lemma zip_open_member:
  "name \<in> set (namelist zip_ref) \<Longrightarrow> \<exists>bytes. zip_open zip_ref name = Inr bytes"
proof -
  assume "name \<in> set (namelist zip_ref)"
  then have "name \<in> fst ` set (rev zip_ref)" by (simp add: namelist_def)
  then have "map_of (rev zip_ref) name \<noteq> None" by (simp add: map_of_eq_None_iff)
  then show ?thesis by (auto simp: zip_open_def)
qed

subsection \<open>The run of create\_mapping\_files on a table\<close>

lemma header_only_no_files:
  assumes "files w0 input_file = Some text" and "readlines text = [line0]"
  shows "\<exists>w'. create_mapping_files input_file output_dir w0 = Inr w' \<and>
           written w' = written w0 \<and> files w' = files w0"
  using create_mapping_files_run[OF assms, of output_dir]
  by (auto simp: data_lines_of_def spec_files_def spec_group_keys_def)

subsection \<open>The example row\<close>

lemma split_row_S1:
  "split TAB row_S1 = [''S1'', ''LIB01'', ''p1'', ''AAAA'', ''p2'', ''TTTT'', ''p3'', ''GGGG'',
                      ''p4'', ''CCCC'']"
  by (simp add: row_S1_def TAB_def)

lemma strip_row_S1: "strip (row_S1 @ [LF]) = row_S1" "strip row_S1 = row_S1"
  by (simp_all add: row_S1_def strip_def lstrip_def rstrip_def isspace_def whitespace_def TAB_def LF_def)

lemma readlines_row_S1: "readlines (row_S1 @ [LF]) = [row_S1 @ [LF]]" "readlines row_S1 = [row_S1]"
  by (simp_all add: row_S1_def TAB_def LF_def)

lemma spec_files_row_S1:
  "spec_files out [row_S1] =
     [(tags_file out ''LIB01'',
       tab_join [''AAAA'', ''TTTT'', ''S1_16S''] @ [LF] @ tab_join [''GGGG'', ''CCCC'', ''S1_ITS1''] @ [LF])]"
  by (simp add: spec_files_def spec_group_keys_def spec_valid_row_def spec_group_key_def
      spec_group_records_def spec_group_rows_def spec_record_A_def spec_record_B_def
      sample_line_def split_row_S1)

subsection \<open>The lines of a group's file\<close>

lemma data_lines_no_LF:
  assumes "set rest \<subseteq> set (readlines text)" and "row \<in> set (data_lines_of rest)"
  shows "LF \<notin> set row"
  using assms strip_line_no_LF by (auto simp: data_lines_of_def)

lemma valid_row_fields:
  assumes "spec_valid_row row" and "i < 10"
  shows "split TAB row ! i \<in> set (split TAB row)"
  using assms by (simp add: spec_valid_row_def)

lemma field_no_TAB_LF:
  assumes "spec_valid_row row" and "LF \<notin> set row" and "i < 10"
  shows "TAB \<notin> set (split TAB row ! i) \<and> LF \<notin> set (split TAB row ! i)"
  using valid_row_fields[OF assms(1,3)] split_field_no_sep split_field_subset assms(2)
  by blast

lemma TAB_not_in_suffixes: "TAB \<notin> set ''_16S''" "TAB \<notin> set ''_ITS1''"
  "LF \<notin> set ''_16S''" "LF \<notin> set ''_ITS1''"
  by (simp_all add: TAB_def LF_def)

lemma sample_line_body: "sample_line s = line_body s @ [LF]"
  by (simp add: sample_line_def line_body_def)

lemma TAB_neq_LF: "TAB \<noteq> LF"
  by (simp add: TAB_def LF_def)

lemma record_lines:
  assumes "spec_valid_row row" and "LF \<notin> set row"
  shows "LF \<notin> set (line_body (spec_record_A row))" "LF \<notin> set (line_body (spec_record_B row))"
    "count_list (line_body (spec_record_A row)) TAB = 2"
    "count_list (line_body (spec_record_B row)) TAB = 2"
proof -
  have f: "\<And>i. i < 10 \<Longrightarrow> TAB \<notin> set (split TAB row ! i) \<and> LF \<notin> set (split TAB row ! i)"
    using field_no_TAB_LF[OF assms] by simp
  have c: "\<And>i. i < 10 \<Longrightarrow> count_list (split TAB row ! i) TAB = 0"
    using f by (simp add: count_list_0_iff)
  show "LF \<notin> set (line_body (spec_record_A row))"
    using f[of 0] f[of 3] f[of 5] TAB_neq_LF
    by (simp add: line_body_def spec_record_A_def LF_def)
  show "LF \<notin> set (line_body (spec_record_B row))"
    using f[of 0] f[of 7] f[of 9] TAB_neq_LF
    by (simp add: line_body_def spec_record_B_def LF_def)
  show "count_list (line_body (spec_record_A row)) TAB = 2"
    using c[of 0] c[of 3] c[of 5]
    by (simp add: line_body_def spec_record_A_def TAB_def)
  show "count_list (line_body (spec_record_B row)) TAB = 2"
    using c[of 0] c[of 7] c[of 9]
    by (simp add: line_body_def spec_record_B_def TAB_def)
qed

lemma group_records_lines:
  assumes "\<forall>row\<in>set rows. LF \<notin> set row" and "s \<in> set (spec_group_records k rows)"
  shows "LF \<notin> set (line_body s) \<and> count_list (line_body s) TAB = 2"
  using assms record_lines
  by (auto simp: spec_group_records_def spec_group_rows_def)

lemma readlines_group_text:
  assumes "\<forall>row\<in>set rows. LF \<notin> set row"
  shows "readlines (concat (map sample_line (spec_group_records k rows))) =
           map sample_line (spec_group_records k rows)"
proof -
  have "\<forall>l\<in>set (map line_body (spec_group_records k rows)). LF \<notin> set l"
    using group_records_lines[OF assms] by auto
  moreover have "sample_line = (\<lambda>s. line_body s @ [LF])"
    by (rule ext) (rule sample_line_body)
  ultimately show ?thesis
    using readlines_render[of "map line_body (spec_group_records k rows)"]
    by (simp add: comp_def)
qed

lemma length_group_records:
  "length (spec_group_records k rows) = 2 * length (spec_group_rows k rows)"
  by (simp add: spec_group_records_def length_concat comp_def sum_list_triv)

lemma group_lines_two_tabs:
  assumes "\<forall>row\<in>set rows. LF \<notin> set row"
    and "line \<in> set (map sample_line (spec_group_records k rows))"
  shows "count_list line TAB = 2"
  using assms group_records_lines[OF assms(1)] TAB_neq_LF
  by (auto simp: sample_line_body)


lemma spec_files_paths:
  "map fst (spec_files out rows) = map (tags_file out) (sort (remdups (spec_group_keys rows)))"
  by (simp add: spec_files_def comp_def)


lemma readlines_example_table:
  "readlines example_table = (''h'' @ [LF]) # [row_S1 @ [LF], row_short @ [LF]]"
  by (simp add: example_table_def row_S1_def row_short_def TAB_def LF_def)

lemma data_lines_example_table:
  "data_lines_of [row_S1 @ [LF], row_short @ [LF]] = [row_S1, row_short]"
  by (simp add: data_lines_of_def row_S1_def row_short_def strip_def lstrip_def rstrip_def isspace_def
      whitespace_def TAB_def LF_def)

lemma split_xy: "split TAB row_short = [''x'', ''y'']"
  by (simp add: row_short_def TAB_def)

lemma files_world_with: "files (world_with p text) p = Some text"
  "written (world_with p text) = []" "console (world_with p text) = []"
  "dirs (world_with p text) = {}"
  by (simp_all add: world_with_def empty_world_def)

lemma tags_file_out_LIB01: "tags_file ''out'' ''LIB01'' = ''out/LIB01_tags.tsv''"
  by (simp add: tags_file_def path_join_def)

lemma keys_example_table:
  "spec_group_keys (data_lines_of [row_S1 @ [LF], row_short @ [LF]]) = [''LIB01'']"
  by (simp add: data_lines_example_table spec_group_keys_def spec_valid_row_def
      spec_group_key_def split_row_S1 split_xy)

lemma rows_example_table:
  "filter (\<lambda>row. spec_valid_row row \<and> spec_group_key row = ''LIB01'')
     (data_lines_of [row_S1 @ [LF], row_short @ [LF]]) = [row_S1]"
  by (simp add: data_lines_example_table spec_valid_row_def spec_group_key_def
      split_row_S1 split_xy)

lemma readlines_header_row:
  assumes "LF \<notin> set header"
  shows "readlines (header @ [LF] @ row_S1 @ [LF]) = (header @ [LF]) # [row_S1 @ [LF]]"
  using readlines_line_append[OF assms, of "row_S1 @ [LF]"] readlines_row_S1(1) by simp

lemma row_S1_nonempty: "row_S1 \<noteq> []"
  by (simp add: row_S1_def)

lemma data_lines_row_S1: "data_lines_of [row_S1 @ [LF]] = [row_S1]"
  by (simp add: data_lines_of_def strip_row_S1 row_S1_nonempty)

subsection \<open>Running twice\<close>

lemma missing_input:
  assumes "files w0 input_file = None"
  shows "\<exists>w'. create_mapping_files input_file output_dir w0 = Inr w' \<and>
           files w' = files w0 \<and> dirs w' = dirs w0 \<and> written w' = written w0"
  using assms by (simp add: create_mapping_files_def Let_def print_def)

lemma store_lookup:
  "store ws m p = (case map_of (rev ws) p of None \<Rightarrow> m p | Some c \<Rightarrow> Some c)"
proof (induction ws arbitrary: m)
  case Nil
  then show ?case by simp
next
  case (Cons pc ws)
  show ?case
    by (cases pc) (auto simp: Cons.IH map_add_def split: option.splits)
qed

lemma store_idem: "store ws (store ws m) = store ws m"
  by (rule ext) (simp add: store_lookup split: option.splits)

lemma store_written:
  assumes "store ws m p \<noteq> m p"
  shows "\<exists>c. (p, c) \<in> set ws \<and> store ws m p = Some c"
proof (cases "map_of (rev ws) p")
  case None
  with assms show ?thesis by (simp add: store_lookup)
next
  case (Some c)
  then have "(p, c) \<in> set ws" using map_of_SomeD by fastforce
  with Some show ?thesis by (auto simp: store_lookup)
qed

lemma spec_files_member:
  assumes "(p, c) \<in> set (spec_files out rows)"
  shows "\<exists>k\<in>set (spec_group_keys rows). c = concat (map sample_line (spec_group_records k rows))"
  using assms by (auto simp: spec_files_def)

lemma group_records_nonempty:
  assumes "k \<in> set (spec_group_keys rows)"
  shows "spec_group_records k rows \<noteq> []"
proof -
  from assms obtain row where "row \<in> set rows" "spec_valid_row row" "spec_group_key row = k"
    by (auto simp: spec_group_keys_def)
  then have "row \<in> set (spec_group_rows k rows)" by (simp add: spec_group_rows_def)
  then have "spec_group_rows k rows \<noteq> []" by auto
  then show ?thesis
    using length_group_records[of k rows] by (metis length_0_conv mult_is_0 zero_neq_numeral)
qed

lemma output_line_not_valid:
  assumes "\<forall>row\<in>set rows. LF \<notin> set row"
    and "line \<in> set (map sample_line (spec_group_records k rows))"
  shows "\<not> spec_valid_row (strip line)"
proof -
  have "count_list line TAB = 2" using group_lines_two_tabs[OF assms] .
  then have "count_list (strip line) TAB \<le> 2"
    using count_strip_le[of line TAB] by simp
  then have "length (split TAB (strip line)) \<le> 3" by (simp add: length_split)
  then show ?thesis by (simp add: spec_valid_row_def)
qed

lemma spec_files_no_keys: "spec_group_keys rows = [] \<Longrightarrow> spec_files out rows = []"
  by (simp add: spec_files_def)

lemma output_text_no_files:
  assumes nl: "\<forall>row\<in>set rows. LF \<notin> set row"
    and k: "k \<in> set (spec_group_keys rows)"
    and c: "c = concat (map sample_line (spec_group_records k rows))"
  shows "\<exists>l r. readlines c = l # r \<and> spec_files out (data_lines_of r) = []"
proof -
  have rl: "readlines c = map sample_line (spec_group_records k rows)"
    unfolding c by (rule readlines_group_text[OF nl])
  obtain s ss where s: "spec_group_records k rows = s # ss"
    using group_records_nonempty[OF k] by (cases "spec_group_records k rows") auto
  have "\<forall>line\<in>set (map sample_line ss). \<not> spec_valid_row (strip line)"
    using output_line_not_valid[OF nl, of _ k] s by auto
  then have "filter spec_valid_row (data_lines_of (map sample_line ss)) = []"
    by (auto simp: data_lines_of_def filter_empty_conv)
  then have "spec_group_keys (data_lines_of (map sample_line ss)) = []"
    by (simp add: spec_group_keys_def)
  then have "spec_files out (data_lines_of (map sample_line ss)) = []"
    by (rule spec_files_no_keys)
  then show ?thesis using rl s by simp
qed

lemma spec_files_sorted:
  "\<exists>ks. sorted ks \<and> distinct ks \<and> map fst (spec_files out rows) = map (tags_file out) ks"
  by (rule exI[of _ "sort (remdups (spec_group_keys rows))"]) (simp add: spec_files_paths)

lemma spec_files_example_table:
  "spec_files ''out'' (data_lines_of [row_S1 @ [LF], row_short @ [LF]]) =
     [(''out/LIB01_tags.tsv'',
       tab_join [''AAAA'', ''TTTT'', ''S1_16S''] @ [LF] @
       tab_join [''GGGG'', ''CCCC'', ''S1_ITS1''] @ [LF])]"
  by (simp add: spec_files_def keys_example_table spec_group_records_def spec_group_rows_def
      rows_example_table spec_record_A_def spec_record_B_def sample_line_def split_row_S1
      tags_file_out_LIB01)

lemma rstrip_Cons: "\<not> isspace x \<Longrightarrow> rstrip (x # xs) = x # rstrip xs"
  by (cases "\<forall>y\<in>set xs. isspace y")
    (auto simp: rstrip_def dropWhile_append dropWhile_eq_Nil_conv)

lemma strip_starts_nonspace:
  assumes "strip s \<noteq> []"
  shows "\<not> isspace (hd (strip s))"
proof (cases "dropWhile isspace s")
  case Nil
  with assms show ?thesis by (simp add: strip_def lstrip_def rstrip_def)
next
  case (Cons x xs)
  then have "\<not> isspace x" using hd_dropWhile[of isspace s] by simp
  then show ?thesis using Cons by (simp add: strip_def lstrip_def rstrip_Cons)
qed

lemma first_field_nonempty: "s \<noteq> [] \<Longrightarrow> hd s \<noteq> sep \<Longrightarrow> split sep s ! 0 \<noteq> []"
  by (cases s) (auto split: list.splits)

lemma sample_id_never_empty:
  assumes "row \<in> set (data_lines_of rest)"
  shows "split TAB row ! SAMPLE_ID \<noteq> []"
proof -
  from assms obtain l where l: "row = strip l" "strip l \<noteq> []"
    by (auto simp: data_lines_of_def)
  then have "hd row \<noteq> TAB" using strip_starts_nonspace[of l] isspace_TAB by auto
  then show ?thesis using l first_field_nonempty by (simp add: SAMPLE_ID_def)
qed

lemma split_row_leading_tab:
  "split TAB row_leading_tab = ['''', ''LIB01'', ''p1'', ''AAAA'', ''p2'', ''TTTT'', ''p3'',
                               ''GGGG'', ''p4'', ''CCCC'', ''X'']"
  by (simp add: row_leading_tab_def TAB_def)

lemma split_row_shifted:
  "split TAB row_shifted = [''LIB01'', ''p1'', ''AAAA'', ''p2'', ''TTTT'', ''p3'',
                           ''GGGG'', ''p4'', ''CCCC'', ''X'']"
  by (simp add: row_shifted_def TAB_def)

lemma rstrip_row_leading_tab: "rstrip (row_leading_tab @ [LF]) = row_leading_tab"
  by (simp add: row_leading_tab_def rstrip_def isspace_def whitespace_def TAB_def LF_def)

lemma strip_row_leading_tab: "strip (row_leading_tab @ [LF]) = row_shifted"
  by (simp add: row_leading_tab_def row_shifted_def strip_def lstrip_def rstrip_def isspace_def
      whitespace_def TAB_def LF_def)

lemma row_shifted_nonempty: "row_shifted \<noteq> []"
  by (simp add: row_shifted_def)

lemma readlines_leading_tab:
  "readlines (''h'' @ [LF] @ row_leading_tab @ [LF]) = (''h'' @ [LF]) # [row_leading_tab @ [LF]]"
  by (simp add: row_leading_tab_def TAB_def LF_def)

lemma spec_files_row_shifted:
  "spec_files ''out'' [row_shifted] =
     [(''out/p1_tags.tsv'',
       tab_join [''p2'', ''p3'', ''LIB01_16S''] @ [LF] @
       tab_join [''p4'', ''X'', ''LIB01_ITS1''] @ [LF])]"
  by (simp add: spec_files_def spec_group_keys_def spec_valid_row_def spec_group_key_def
      spec_group_records_def spec_group_rows_def spec_record_A_def spec_record_B_def
      sample_line_def split_row_shifted tags_file_def path_join_def)

section \<open>The claims\<close>







text \<open>
  C4: for a table made of a header line and the single data row
  \<open>S1 LIB01 p1 AAAA p2 TTTT p3 GGGG p4 CCCC\<close> (tab-separated), the transform makes exactly
  one group, \<open>LIB01\<close>, with the records \<open>(AAAA, TTTT, S1_16S)\<close> and
  \<open>(GGGG, CCCC, S1_ITS1)\<close>, and writes exactly one file, \<open>LIB01_tags.tsv\<close> in the output
  directory, whose text is the two lines \<open>AAAA TTTT S1_16S\<close> and \<open>GGGG CCCC S1_ITS1\<close>
  in that order.
\<close>

theorem example_row_file:
  assumes "files w0 input_file = Some (header @ [LF] @ row_S1 @ [LF])" and "LF \<notin> set header"
  shows "\<exists>w'. create_mapping_files input_file output_dir w0 = Inr w' \<and>
           written w' = written w0 @
             [(path_join output_dir ''LIB01_tags.tsv'',
               tab_join [''AAAA'', ''TTTT'', ''S1_16S''] @ [LF] @
               tab_join [''GGGG'', ''CCCC'', ''S1_ITS1''] @ [LF])] \<and>
           files w' = (files w0)(path_join output_dir ''LIB01_tags.tsv'' \<mapsto>
               tab_join [''AAAA'', ''TTTT'', ''S1_16S''] @ [LF] @
               tab_join [''GGGG'', ''CCCC'', ''S1_ITS1''] @ [LF]) \<and>
           fst (group_rows (data_lines_of [row_S1 @ [LF]]) ([], w)) =
             [(''LIB01'',
               [\<lparr>forward_tag = ''AAAA'', reverse_tag = ''TTTT'', sample_name = ''S1_16S''\<rparr>,
                \<lparr>forward_tag = ''GGGG'', reverse_tag = ''CCCC'', sample_name = ''S1_ITS1''\<rparr>])]"
proof -
  have g: "fst (group_rows (data_lines_of [row_S1 @ [LF]]) ([], w)) =
             [(''LIB01'',
               [\<lparr>forward_tag = ''AAAA'', reverse_tag = ''TTTT'', sample_name = ''S1_16S''\<rparr>,
                \<lparr>forward_tag = ''GGGG'', reverse_tag = ''CCCC'', sample_name = ''S1_ITS1''\<rparr>])]"
    by (simp add: data_lines_row_S1 group_row_def split_row_S1 Let_def SAMPLE_ID_def
        SUBLIBRARY_ID_def S16_FORWARD_TAG_def S16_REVERSE_TAG_def ITS1_FORWARD_TAG_def
        ITS1_REVERSE_TAG_def dict_append_def)
  from create_mapping_files_run[OF assms(1) readlines_header_row[OF assms(2)], of output_dir]
  show ?thesis
    using g by (auto simp: data_lines_row_S1 spec_files_row_S1 tags_file_def)
qed

theorem example_row_file_witness:
  "files (world_with ''in.txt'' (''sample-id'' @ [LF] @ row_S1 @ [LF])) ''in.txt'' =
     Some (''sample-id'' @ [LF] @ row_S1 @ [LF]) \<and>
   LF \<notin> set ''sample-id'' \<and>
   (\<exists>w'. create_mapping_files ''in.txt'' ''out''
            (world_with ''in.txt'' (''sample-id'' @ [LF] @ row_S1 @ [LF])) = Inr w' \<and>
      written w' = [(''out/LIB01_tags.tsv'',
               tab_join [''AAAA'', ''TTTT'', ''S1_16S''] @ [LF] @
               tab_join [''GGGG'', ''CCCC'', ''S1_ITS1''] @ [LF])] \<and>
      files w' ''out/LIB01_tags.tsv'' = Some (tab_join [''AAAA'', ''TTTT'', ''S1_16S''] @ [LF] @
               tab_join [''GGGG'', ''CCCC'', ''S1_ITS1''] @ [LF]))"
proof -
  have h1: "files (world_with ''in.txt'' (''sample-id'' @ [LF] @ row_S1 @ [LF])) ''in.txt'' =
     Some (''sample-id'' @ [LF] @ row_S1 @ [LF])"
    by (rule files_world_with)
  have h2: "LF \<notin> set ''sample-id''" by (simp add: LF_def)
  have p: "path_join ''out'' ''LIB01_tags.tsv'' = ''out/LIB01_tags.tsv''"
    by (simp add: path_join_def)
  from example_row_file[OF h1 h2, of "''out''" empty_world] obtain w' where
    r: "create_mapping_files ''in.txt'' ''out''
            (world_with ''in.txt'' (''sample-id'' @ [LF] @ row_S1 @ [LF])) = Inr w'"
      "written w' = written (world_with ''in.txt'' (''sample-id'' @ [LF] @ row_S1 @ [LF])) @
         [(''out/LIB01_tags.tsv'',
               tab_join [''AAAA'', ''TTTT'', ''S1_16S''] @ [LF] @
               tab_join [''GGGG'', ''CCCC'', ''S1_ITS1''] @ [LF])]"
      "files w' = (files (world_with ''in.txt'' (''sample-id'' @ [LF] @ row_S1 @ [LF])))
         (''out/LIB01_tags.tsv'' \<mapsto>
               tab_join [''AAAA'', ''TTTT'', ''S1_16S''] @ [LF] @
               tab_join [''GGGG'', ''CCCC'', ''S1_ITS1''] @ [LF])"
    unfolding p by blast
  from r(3) have "files w' ''out/LIB01_tags.tsv'' =
      Some (tab_join [''AAAA'', ''TTTT'', ''S1_16S''] @ [LF] @
               tab_join [''GGGG'', ''CCCC'', ''S1_ITS1''] @ [LF])"
    by simp
  with r(1,2) h1 h2 show ?thesis
    by (simp only: files_world_with append_Nil) blast
qed

text \<open>
  C5: after a run that returned, a second run with the same input path and output
  directory returns too and leaves the file store and the directories exactly as the first
  run left them. Each run replaces the text of the files it writes (the store after the run
  is the store before it with the texts written, nothing appended); when the input file is
  the same at the second run, the second run writes the same files with the same texts;
  and the files are written in ascending order of the group keys.
\<close>

theorem rerun_same_files:
  assumes run1: "create_mapping_files input_file output_dir w0 = Inr w1"
  shows "\<exists>w2 ws1 ws2 ks.
           create_mapping_files input_file output_dir w1 = Inr w2 \<and>
           files w2 = files w1 \<and> dirs w2 = dirs w1 \<and>
           written w1 = written w0 @ ws1 \<and> files w1 = store ws1 (files w0) \<and>
           written w2 = written w1 @ ws2 \<and>
           (files w1 input_file = files w0 input_file \<longrightarrow> ws2 = ws1) \<and>
           sorted ks \<and> distinct ks \<and> map fst ws1 = map (tags_file output_dir) ks"
proof (cases "files w0 input_file")
  case None
  from missing_input[OF None, of output_dir] run1
  have w1: "files w1 = files w0" "dirs w1 = dirs w0" "written w1 = written w0" by auto
  then have "files w1 input_file = None" using None by simp
  from missing_input[OF this, of output_dir] obtain w2 where
    "create_mapping_files input_file output_dir w1 = Inr w2" "files w2 = files w1"
    "dirs w2 = dirs w1" "written w2 = written w1" by auto
  then have "create_mapping_files input_file output_dir w1 = Inr w2 \<and>
           files w2 = files w1 \<and> dirs w2 = dirs w1 \<and>
           written w1 = written w0 @ [] \<and> files w1 = store [] (files w0) \<and>
           written w2 = written w1 @ [] \<and>
           (files w1 input_file = files w0 input_file \<longrightarrow> [] = ([] :: (string \<times> string) list)) \<and>
           sorted ([] :: string list) \<and> distinct ([] :: string list) \<and>
           map fst ([] :: (string \<times> string) list) = map (tags_file output_dir) []"
    using w1 by simp
  then show ?thesis by blast
next
  case (Some contents)
  show ?thesis
  proof (cases "readlines contents")
    case Nil
    with Some run1 show ?thesis
      by (simp add: create_mapping_files_def Let_def print_def)
  next
    case (Cons line0 rest)
    define ws1 where "ws1 = spec_files output_dir (data_lines_of rest)"
    from create_mapping_files_run[OF Some Cons, of output_dir] run1
    have w1: "written w1 = written w0 @ ws1" "files w1 = store ws1 (files w0)"
      "dirs w1 = insert output_dir (dirs w0)"
      by (auto simp: ws1_def)
    have nl: "\<forall>row\<in>set (data_lines_of rest). LF \<notin> set row"
      using data_lines_no_LF[of rest contents] Cons by auto
    have "\<exists>contents2 l2 rest2. files w1 input_file = Some contents2 \<and> readlines contents2 = l2 # rest2 \<and>
        store (spec_files output_dir (data_lines_of rest2)) (files w1) = files w1 \<and>
        (files w1 input_file = files w0 input_file \<longrightarrow>
           spec_files output_dir (data_lines_of rest2) = ws1)"
    proof (cases "files w1 input_file = files w0 input_file")
      case True
      then show ?thesis
        using Some Cons w1(2) by (auto simp: ws1_def[symmetric] store_idem)
    next
      case False
      then have "store ws1 (files w0) input_file \<noteq> files w0 input_file" by (simp add: w1)
      from store_written[OF this] obtain c where
        c: "(input_file, c) \<in> set ws1" "files w1 input_file = Some c" by (auto simp: w1)
      from spec_files_member[OF c(1)[unfolded ws1_def]] obtain k where
        k: "k \<in> set (spec_group_keys (data_lines_of rest))"
          "c = concat (map sample_line (spec_group_records k (data_lines_of rest)))" by auto
      from output_text_no_files[OF nl k, of output_dir] obtain l r where
        "readlines c = l # r" "spec_files output_dir (data_lines_of r) = []" by auto
      then show ?thesis using c(2) False by auto
    qed
    then obtain contents2 l2 rest2 where
      t2: "files w1 input_file = Some contents2" "readlines contents2 = l2 # rest2"
        "store (spec_files output_dir (data_lines_of rest2)) (files w1) = files w1"
        "files w1 input_file = files w0 input_file \<longrightarrow>
           spec_files output_dir (data_lines_of rest2) = ws1"
      by blast
    from create_mapping_files_run[OF t2(1,2), of output_dir] obtain w2 where
      w2: "create_mapping_files input_file output_dir w1 = Inr w2"
        "written w2 = written w1 @ spec_files output_dir (data_lines_of rest2)"
        "files w2 = store (spec_files output_dir (data_lines_of rest2)) (files w1)"
        "dirs w2 = insert output_dir (dirs w1)"
      by blast
    from spec_files_sorted[of output_dir "data_lines_of rest"] obtain ks where
      ks: "sorted ks" "distinct ks" "map fst ws1 = map (tags_file output_dir) ks"
      by (auto simp: ws1_def)
    have "create_mapping_files input_file output_dir w1 = Inr w2 \<and>
           files w2 = files w1 \<and> dirs w2 = dirs w1 \<and>
           written w1 = written w0 @ ws1 \<and> files w1 = store ws1 (files w0) \<and>
           written w2 = written w1 @ spec_files output_dir (data_lines_of rest2) \<and>
           (files w1 input_file = files w0 input_file \<longrightarrow>
              spec_files output_dir (data_lines_of rest2) = ws1) \<and>
           sorted ks \<and> distinct ks \<and> map fst ws1 = map (tags_file output_dir) ks"
      using w2 t2(3,4) w1 ks by auto
    then show ?thesis by blast
  qed
qed

theorem rerun_same_files_witness:
  "\<exists>w1 w2 ws.
     create_mapping_files ''in.txt'' ''out'' (world_with ''in.txt'' example_table) = Inr w1 \<and>
     create_mapping_files ''in.txt'' ''out'' w1 = Inr w2 \<and>
     files w2 = files w1 \<and> dirs w2 = dirs w1 \<and>
     written w1 = ws \<and> written w2 = ws @ ws \<and>
     ws = [(''out/LIB01_tags.tsv'',
            tab_join [''AAAA'', ''TTTT'', ''S1_16S''] @ [LF] @
            tab_join [''GGGG'', ''CCCC'', ''S1_ITS1''] @ [LF])]"
proof -
  have h1: "files (world_with ''in.txt'' example_table) ''in.txt'' = Some example_table"
    by (rule files_world_with)
  from create_mapping_files_run[OF h1 readlines_example_table, of "''out''"] obtain w1 where
    r1: "create_mapping_files ''in.txt'' ''out'' (world_with ''in.txt'' example_table) = Inr w1"
      and wr1: "written w1 = [(''out/LIB01_tags.tsv'',
            tab_join [''AAAA'', ''TTTT'', ''S1_16S''] @ [LF] @
            tab_join [''GGGG'', ''CCCC'', ''S1_ITS1''] @ [LF])]"
      and f1: "files w1 = store [(''out/LIB01_tags.tsv'',
            tab_join [''AAAA'', ''TTTT'', ''S1_16S''] @ [LF] @
            tab_join [''GGGG'', ''CCCC'', ''S1_ITS1''] @ [LF])]
              (files (world_with ''in.txt'' example_table))"
    unfolding spec_files_example_table by (auto simp: files_world_with)
  have same: "files w1 ''in.txt'' = files (world_with ''in.txt'' example_table) ''in.txt''"
    by (simp add: f1)
  from rerun_same_files[OF r1] obtain w2 ws1 ws2 where
    r2: "create_mapping_files ''in.txt'' ''out'' w1 = Inr w2"
      "files w2 = files w1" "dirs w2 = dirs w1"
      "written w1 = written (world_with ''in.txt'' example_table) @ ws1"
      "written w2 = written w1 @ ws2"
      "files w1 ''in.txt'' = files (world_with ''in.txt'' example_table) ''in.txt'' \<longrightarrow> ws2 = ws1"
    by blast
  from r2(4) have "ws1 = written w1" by (simp add: files_world_with)
  with r2(5,6) same have "written w2 = written w1 @ written w1" by simp
  with r1 r2(1,2,3) wr1 show ?thesis by simp
qed

text \<open>
  C6: when the input path does not exist, \<open>create_mapping_files\<close> prints that the file
  was not found and returns without raising; nothing is written, the file store is as it
  was, and the output directory is not created (\<open>makedirs\<close> comes after the read).
\<close>

theorem missing_input_reported:
  assumes "files w0 input_file = None"
  shows "\<exists>w'. create_mapping_files input_file output_dir w0 = Inr w' \<and>
           console w' = console w0 @ [Reading input_file, FileNotFound input_file] \<and>
           files w' = files w0 \<and> dirs w' = dirs w0 \<and> written w' = written w0"
  using assms by (simp add: create_mapping_files_def Let_def print_def)

theorem missing_input_reported_witness:
  "files empty_world ''in.txt'' = None \<and>
   (\<exists>w'. create_mapping_files ''in.txt'' ''out'' empty_world = Inr w' \<and>
      console w' = [Reading ''in.txt'', FileNotFound ''in.txt''] \<and>
      files w' = Map.empty \<and> dirs w' = {} \<and> written w' = [])"
proof -
  have h: "files empty_world ''in.txt'' = None" by (simp add: empty_world_def)
  from missing_input_reported[OF h, of "''out''"] h show ?thesis
    by (simp add: empty_world_def)
qed

text \<open>
  C7: the claim asks that an input file with no lines at all gives zero groups, zero files
  and no error. On the empty file \<open>readlines\<close> gives the empty list and \<open>lines[0]\<close>
  raises \<open>IndexError\<close>. (A file with a header line only is handled: see
  \<open>header_only_no_files\<close>.)
\<close>

theorem empty_file_raises_IndexError:
  "create_mapping_files ''in.txt'' ''out'' (world_with ''in.txt'' '''') = Inl IndexError"
  by (simp add: create_mapping_files_def Let_def print_def world_with_def empty_world_def)

text \<open>
  C8: the claim asks that only trailing whitespace is trimmed from a line, so that a leading
  tab leaves an empty first field and the other fields in place. The code calls
  \<open>strip()\<close>, which trims both ends. For a row of 11 fields whose first field is empty,
  trimming at the end only leaves \<open>sample_id\<close> empty (a row the code means to skip); the
  code drops the leading tab, reads \<open>LIB01\<close> as \<open>sample_id\<close> and \<open>p1\<close> as
  \<open>group_key\<close>, and writes a file \<open>p1_tags.tsv\<close>.
\<close>

theorem leading_tab_shifts_fields:
  "split TAB (rstrip (row_leading_tab @ [LF])) ! 0 = [] \<and>
   split TAB (rstrip (row_leading_tab @ [LF])) ! 1 = ''LIB01'' \<and>
   split TAB (strip (row_leading_tab @ [LF])) ! 0 = ''LIB01'' \<and>
   split TAB (strip (row_leading_tab @ [LF])) ! 1 = ''p1'' \<and>
   (\<exists>w'. create_mapping_files ''in.txt'' ''out''
            (world_with ''in.txt'' (''h'' @ [LF] @ row_leading_tab @ [LF])) = Inr w' \<and>
      written w' = [(''out/p1_tags.tsv'',
                     tab_join [''p2'', ''p3'', ''LIB01_16S''] @ [LF] @
                     tab_join [''p4'', ''X'', ''LIB01_ITS1''] @ [LF])])"
proof -
  have h1: "files (world_with ''in.txt'' (''h'' @ [LF] @ row_leading_tab @ [LF])) ''in.txt'' =
      Some (''h'' @ [LF] @ row_leading_tab @ [LF])"
    by (rule files_world_with)
  have d: "data_lines_of [row_leading_tab @ [LF]] = [row_shifted]"
    by (simp add: data_lines_of_def strip_row_leading_tab row_shifted_nonempty)
  from create_mapping_files_run[OF h1 readlines_leading_tab, of "''out''"]
  have "\<exists>w'. create_mapping_files ''in.txt'' ''out''
            (world_with ''in.txt'' (''h'' @ [LF] @ row_leading_tab @ [LF])) = Inr w' \<and>
      written w' = [(''out/p1_tags.tsv'',
                     tab_join [''p2'', ''p3'', ''LIB01_16S''] @ [LF] @
                     tab_join [''p4'', ''X'', ''LIB01_ITS1''] @ [LF])]"
    unfolding d spec_files_row_shifted by (auto simp: files_world_with)
  then show ?thesis
    by (simp add: rstrip_row_leading_tab strip_row_leading_tab split_row_leading_tab
        split_row_shifted)
qed

text \<open>
  C9: every line of every file written has exactly two tab characters, that is exactly
  three tab-separated columns.
\<close>

theorem output_lines_three_columns:
  assumes "files w0 input_file = Some text" and "readlines text = line0 # rest"
  shows "\<exists>w' new.
           create_mapping_files input_file output_dir w0 = Inr w' \<and>
           written w' = written w0 @ new \<and>
           list_all (\<lambda>pc. list_all (\<lambda>line. count_list line TAB = 2 \<and>
                                      length (split TAB line) = 3) (readlines (snd pc))) new"
proof -
  have nl: "\<forall>row\<in>set (data_lines_of rest). LF \<notin> set row"
    using data_lines_no_LF[of rest "text"] assms(2) by auto
  from create_mapping_files_run[OF assms, of output_dir] obtain w' where
    r: "create_mapping_files input_file output_dir w0 = Inr w'"
      "written w' = written w0 @ spec_files output_dir (data_lines_of rest)"
    by blast
  have "list_all (\<lambda>pc. list_all (\<lambda>line. count_list line TAB = 2 \<and>
                                      length (split TAB line) = 3) (readlines (snd pc)))
          (spec_files output_dir (data_lines_of rest))"
    using group_lines_two_tabs[OF nl]
    by (auto simp: spec_files_def list_all_iff readlines_group_text[OF nl] length_split)
  with r show ?thesis by blast
qed

theorem output_lines_three_columns_witness:
  "files (world_with ''in.txt'' example_table) ''in.txt'' = Some example_table \<and>
   readlines example_table = (''h'' @ [LF]) # [row_S1 @ [LF], row_short @ [LF]] \<and>
   (\<exists>w'.
      create_mapping_files ''in.txt'' ''out'' (world_with ''in.txt'' example_table) = Inr w' \<and>
      written w' \<noteq> [] \<and>
      list_all (\<lambda>pc. list_all (\<lambda>line. count_list line TAB = 2 \<and>
                                 length (split TAB line) = 3) (readlines (snd pc))) (written w'))"
proof -
  have h1: "files (world_with ''in.txt'' example_table) ''in.txt'' = Some example_table"
    by (rule files_world_with)
  note h2 = readlines_example_table
  from output_lines_three_columns[OF h1 h2, of "''out''"] obtain w' new where
    r: "create_mapping_files ''in.txt'' ''out'' (world_with ''in.txt'' example_table) = Inr w'"
      "written w' = written (world_with ''in.txt'' example_table) @ new"
      "list_all (\<lambda>pc. list_all (\<lambda>line. count_list line TAB = 2 \<and>
                                 length (split TAB line) = 3) (readlines (snd pc))) new"
    by auto
  from create_mapping_files_run[OF h1 h2, of "''out''"] r(1)
  have "written w' = spec_files ''out'' (data_lines_of [row_S1 @ [LF], row_short @ [LF]])"
    by (auto simp: files_world_with)
  then have "written w' \<noteq> []"
    by (simp add: spec_files_def keys_example_table)
  with r h1 h2 show ?thesis by (simp add: files_world_with)
qed

text \<open>
  C10: \<open>extract_sample_stats\<close> returns \<open>None\<close>, after printing its diagnostic, exactly when
  no name of the archive's listing ends in \<open>sample-frequency-detail.csv\<close>; otherwise it
  reads the table from the member named by the first such name of the listing and returns
  it (or raises what \<open>read_csv\<close> raises).
\<close>

theorem extract_sample_stats_None_iff:
  assumes "zips qzv_file = Some zip_ref"
  shows "((\<exists>out'. extract_sample_stats read_csv zips qzv_file out = Inr (None, out')) \<longleftrightarrow>
            (\<forall>name\<in>set (namelist zip_ref). \<not> endswith name ''sample-frequency-detail.csv'')) \<and>
         (\<forall>out'. extract_sample_stats read_csv zips qzv_file out = Inr (None, out') \<longrightarrow>
            out' = out @ [CouldNotFind qzv_file]) \<and>
         (\<forall>pre name post.
            namelist zip_ref = pre @ name # post \<and>
            (\<forall>n\<in>set pre. \<not> endswith n ''sample-frequency-detail.csv'') \<and>
            endswith name ''sample-frequency-detail.csv'' \<longrightarrow>
            (\<exists>bytes. zip_open zip_ref name = Inr bytes \<and>
               extract_sample_stats read_csv zips qzv_file out =
                 (case read_csv bytes of Inl e \<Rightarrow> Inl e | Inr df \<Rightarrow> Inr (Some df, out))))"
proof (intro conjI allI impI)
  show "(\<exists>out'. extract_sample_stats read_csv zips qzv_file out = Inr (None, out')) \<longleftrightarrow>
            (\<forall>name\<in>set (namelist zip_ref). \<not> endswith name ''sample-frequency-detail.csv'')"
  proof (cases "find_data_file (namelist zip_ref)")
    case None
    then show ?thesis
      using assms find_data_file_None[of "namelist zip_ref"]
      by (simp add: extract_sample_stats_def)
  next
    case (Some name)
    from find_data_file_Some[OF Some]
    have mem: "name \<in> set (namelist zip_ref)" and e: "endswith name ''sample-frequency-detail.csv''"
      by auto
    obtain bytes where b: "zip_open zip_ref name = Inr bytes"
      using zip_open_member[OF mem] by auto
    have "\<not> (\<exists>out'. extract_sample_stats read_csv zips qzv_file out = Inr (None, out'))"
      using assms Some b endswith_nonempty[OF e]
      by (auto simp: extract_sample_stats_def split: sum.splits)
    then show ?thesis using mem e by auto
  qed
next
  fix out'
  assume "extract_sample_stats read_csv zips qzv_file out = Inr (None, out')"
  then show "out' = out @ [CouldNotFind qzv_file]"
    using assms
    by (auto simp: extract_sample_stats_def Let_def split: option.splits if_splits sum.splits)
next
  fix pre name post
  assume h: "namelist zip_ref = pre @ name # post \<and>
            (\<forall>n\<in>set pre. \<not> endswith n ''sample-frequency-detail.csv'') \<and>
            endswith name ''sample-frequency-detail.csv''"
  then have f: "find_data_file (namelist zip_ref) = Some name"
    using find_data_file_first[of pre name post] by simp
  have mem: "name \<in> set (namelist zip_ref)" using h by simp
  obtain bytes where b: "zip_open zip_ref name = Inr bytes"
    using zip_open_member[OF mem] by auto
  have "extract_sample_stats read_csv zips qzv_file out =
                 (case read_csv bytes of Inl e \<Rightarrow> Inl e | Inr df \<Rightarrow> Inr (Some df, out))"
    using assms f b endswith_nonempty[of name] h
    by (simp add: extract_sample_stats_def)
  then show "\<exists>bytes. zip_open zip_ref name = Inr bytes \<and>
               extract_sample_stats read_csv zips qzv_file out =
                 (case read_csv bytes of Inl e \<Rightarrow> Inl e | Inr df \<Rightarrow> Inr (Some df, out))"
    using b by simp
qed

theorem extract_sample_stats_None_iff_witness:
  "[''s.qzv'' \<mapsto> qzv_example] ''s.qzv'' = Some qzv_example \<and>
   \<not> (\<forall>name\<in>set (namelist qzv_example). \<not> endswith name ''sample-frequency-detail.csv'') \<and>
   \<not> (\<exists>out'. extract_sample_stats (\<lambda>bytes. Inr (length bytes))
           [''s.qzv'' \<mapsto> qzv_example] ''s.qzv'' [] = Inr (None, out')) \<and>
   extract_sample_stats (\<lambda>bytes. Inr (length bytes))
     [''s.qzv'' \<mapsto> qzv_example] ''s.qzv'' [] = Inr (Some 12, [])"
proof -
  have h: "[''s.qzv'' \<mapsto> qzv_example] ''s.qzv'' = Some qzv_example" by simp
  have n: "namelist qzv_example = [''a/index.html''] @ ''a/data/sample-frequency-detail.csv'' # []"
    by (simp add: namelist_def qzv_example_def)
  have e: "endswith ''a/data/sample-frequency-detail.csv'' ''sample-frequency-detail.csv''"
    by (simp add: endswith_def)
  have ne: "\<forall>n\<in>set [''a/index.html'']. \<not> endswith n ''sample-frequency-detail.csv''"
    by (simp add: endswith_def)
  have z: "zip_open qzv_example ''a/data/sample-frequency-detail.csv'' = Inr ''id,frequency''"
    by (simp add: zip_open_def qzv_example_def)
  have m: "\<not> (\<forall>name\<in>set (namelist qzv_example). \<not> endswith name ''sample-frequency-detail.csv'')"
    using n e by simp
  note t = extract_sample_stats_None_iff [where zips = "[''s.qzv'' \<mapsto> qzv_example]"
      and qzv_file = "''s.qzv''" and zip_ref = qzv_example
      and read_csv = "\<lambda>bytes. Inr (length bytes)" and out = "[]", OF h]
  from t have a: "\<not> (\<exists>out'. extract_sample_stats (\<lambda>bytes. Inr (length bytes))
           [''s.qzv'' \<mapsto> qzv_example] ''s.qzv'' [] = Inr (None, out'))"
    using m by blast
  from t n e ne obtain bytes where
    b: "zip_open qzv_example ''a/data/sample-frequency-detail.csv'' = Inr bytes"
    and r: "extract_sample_stats (\<lambda>bytes. Inr (length bytes))
       [''s.qzv'' \<mapsto> qzv_example] ''s.qzv'' [] =
         (case Inr (length bytes) of Inl e \<Rightarrow> Inl e | Inr df \<Rightarrow> Inr (Some df, []))"
    by blast
  from b z have "bytes = ''id,frequency''" by simp
  with r have "extract_sample_stats (\<lambda>bytes. Inr (length bytes))
     [''s.qzv'' \<mapsto> qzv_example] ''s.qzv'' [] = Inr (Some 12, [])" by simp
  with h m a show ?thesis by blast
qed

end
